theory Spec2Isabelle
  imports Complex_Main "HOL-Library.AList" "HOL-Library.Char_ord" "HOL-Library.List_Lexorder"
begin

section \<open>Characters and strings of the Python runtime\<close>

text \<open>
  A Python \<open>str\<close> is modelled as a \<^typ>\<open>string\<close> whose characters are the code points
  U+0000 to U+00FF. All patterns of \<open>regex_parser.py\<close> are ASCII; on this range the
  Unicode-aware classes of the \<open>re\<close> module are the following ones.
\<close>

definition code_point :: "char \<Rightarrow> int" where
  "code_point c = of_char c"

text \<open>\<open>str.isspace\<close>, also the class \<open>\s\<close>: TAB to CR, FS to US, SPACE, NEL and NBSP.\<close>

definition py_isspace :: "char \<Rightarrow> bool" where
  "py_isspace c = (let n = code_point c in
     (9 \<le> n \<and> n \<le> 13) \<or> (28 \<le> n \<and> n \<le> 32) \<or> n = 133 \<or> n = 160)"

text \<open>The class \<open>\d\<close> (decimal digits).\<close>

definition py_isdecimal :: "char \<Rightarrow> bool" where
  "py_isdecimal c = (let n = code_point c in 48 \<le> n \<and> n \<le> 57)"

text \<open>\<open>str.lower\<close> and \<open>str.upper\<close> on one character, as far as the result stays in range.\<close>

definition py_lower :: "char \<Rightarrow> char" where
  "py_lower c = (let n = code_point c in
     if (65 \<le> n \<and> n \<le> 90) \<or> (192 \<le> n \<and> n \<le> 222 \<and> n \<noteq> 215)
     then char_of (n + 32) else c)"

definition py_upper :: "char \<Rightarrow> char" where
  "py_upper c = (let n = code_point c in
     if (97 \<le> n \<and> n \<le> 122) \<or> (224 \<le> n \<and> n \<le> 254 \<and> n \<noteq> 247)
     then char_of (n - 32) else c)"

text \<open>\<open>str.strip()\<close>: leading and trailing whitespace removed.\<close>

definition py_strip :: "string \<Rightarrow> string" where
  "py_strip s = rev (dropWhile py_isspace (rev (dropWhile py_isspace s)))"

text \<open>\<open>sep.join(xs)\<close>.\<close>

fun py_join :: "string \<Rightarrow> string list \<Rightarrow> string" where
  "py_join sep [] = []"
| "py_join sep [x] = x"
| "py_join sep (x # y # ys) = x @ sep @ py_join sep (y # ys)"

text \<open>\<open>str(n)\<close> for an integer: decimal digits, a minus sign for negative numbers.\<close>

definition digit_char :: "nat \<Rightarrow> char" where
  "digit_char d = char_of (48 + d)"

fun str_nat :: "nat \<Rightarrow> string" where
  "str_nat n = (if n < 10 then [digit_char n] else str_nat (n div 10) @ [digit_char (n mod 10)])"

declare str_nat.simps [simp del]

definition py_str_int :: "int \<Rightarrow> string" where
  "py_str_int i = (if i < 0 then CHR ''-'' # str_nat (nat (- i)) else str_nat (nat i))"

section \<open>Exceptions\<close>

datatype exn = KeyError | AttributeError | OverflowError | ValueError | LibraryError

section \<open>The backtracking matcher of the \<open>re\<close> module\<close>

text \<open>
  Patterns are kept as syntax trees. \<open>Repeat greedy lo hi r\<close> is \<open>r{lo,hi}\<close> (\<open>hi = None\<close>:
  unbounded), lazy when \<open>greedy\<close> is false; \<open>Group n r\<close> is the \<open>n\<close>-th capturing group;
  a non-capturing group is just its body.
\<close>

datatype citem = Chr char | Range char char | CatDigit | CatSpace

datatype regex =
    Eps
  | Lit char
  | Dot
  | In "citem list"
  | Seq regex regex
  | Alt regex regex
  | Repeat bool nat "nat option" regex
  | Group nat regex

record re_flags =
  ignorecase :: bool
  dotall :: bool

definition in_range :: "char \<Rightarrow> char \<Rightarrow> char \<Rightarrow> bool" where
  "in_range lo hi x = (code_point lo \<le> code_point x \<and> code_point x \<le> code_point hi)"

text \<open>
  Under \<open>IGNORECASE\<close> the module lowers the members of a class when it compiles the
  pattern and lowers the subject character when it matches: \<open>x\<close> is accepted when some
  member has the same lower-case form. For a range that member is the lower-case form
  of \<open>x\<close> or the upper-case form of it.
\<close>

fun item_match :: "bool \<Rightarrow> citem \<Rightarrow> char \<Rightarrow> bool" where
  "item_match ic (Chr c) x = (if ic then py_lower x = py_lower c else x = c)"
| "item_match ic (Range lo hi) x =
     (if ic then in_range lo hi (py_lower x) \<or> in_range lo hi (py_upper (py_lower x))
      else in_range lo hi x)"
| "item_match ic CatDigit x = py_isdecimal (if ic then py_lower x else x)"
| "item_match ic CatSpace x = py_isspace (if ic then py_lower x else x)"

type_synonym groups = "(nat \<times> string) list"

fun dec_max :: "nat option \<Rightarrow> nat option" where
  "dec_max None = None"
| "dec_max (Some n) = Some (n - 1)"

primrec rsize :: "regex \<Rightarrow> nat" where
  "rsize Eps = 0"
| "rsize (Lit c) = 0"
| "rsize Dot = 0"
| "rsize (In cs) = 0"
| "rsize (Seq a b) = Suc (rsize a + rsize b)"
| "rsize (Alt a b) = Suc (rsize a + rsize b)"
| "rsize (Repeat g lo hi a) = Suc (rsize a)"
| "rsize (Group n a) = Suc (rsize a)"

primrec rmin :: "regex \<Rightarrow> nat" where
  "rmin Eps = 0"
| "rmin (Lit c) = 0"
| "rmin Dot = 0"
| "rmin (In cs) = 0"
| "rmin (Seq a b) = 0"
| "rmin (Alt a b) = 0"
| "rmin (Repeat g lo hi a) = lo"
| "rmin (Group n a) = 0"

text \<open>
  \<open>rmatch f r s g\<close> lists, in the order in which backtracking tries them, the ways in
  which \<open>r\<close> matches a prefix of \<open>s\<close>: the rest of the subject and the groups captured
  so far. The first element is the match the module reports. An optional iteration of
  a repetition is only continued when it consumed a character, as in the module.
\<close>

function rmatch :: "re_flags \<Rightarrow> regex \<Rightarrow> string \<Rightarrow> groups \<Rightarrow> (string \<times> groups) list" where
  "rmatch f Eps s g = [(s, g)]"
| "rmatch f (Lit c) s g =
     (case s of [] \<Rightarrow> [] | x # t \<Rightarrow>
        if (if ignorecase f then py_lower x = py_lower c else x = c) then [(t, g)] else [])"
| "rmatch f Dot s g =
     (case s of [] \<Rightarrow> [] | x # t \<Rightarrow>
        if dotall f \<or> x \<noteq> CHR 0x0A then [(t, g)] else [])"
| "rmatch f (In cs) s g =
     (case s of [] \<Rightarrow> [] | x # t \<Rightarrow>
        if list_ex (\<lambda>i. item_match (ignorecase f) i x) cs then [(t, g)] else [])"
| "rmatch f (Seq a b) s g =
     concat (map (\<lambda>(s', g'). rmatch f b s' g') (rmatch f a s g))"
| "rmatch f (Alt a b) s g = rmatch f a s g @ rmatch f b s g"
| "rmatch f (Group n a) s g =
     map (\<lambda>(s', g'). (s', AList.update n (take (length s - length s') s) g')) (rmatch f a s g)"
| "rmatch f (Repeat greedy lo hi a) s g =
     (if hi = Some 0 then [(s, g)]
      else if 0 < lo then
        concat (map (\<lambda>(s', g'). rmatch f (Repeat greedy (lo - 1) (dec_max hi) a) s' g')
                    (rmatch f a s g))
      else
        (let more = concat (map (\<lambda>(s', g').
                       if length s' < length s
                       then rmatch f (Repeat greedy 0 (dec_max hi) a) s' g' else [])
                     (rmatch f a s g))
         in if greedy then more @ [(s, g)] else (s, g) # more))"
  by pat_completeness auto
termination
  by (relation "inv_image (less_than <*lex*> less_than <*lex*> less_than)
        (\<lambda>(f, r, s, g). (rsize r, rmin r, length s))") auto

text \<open>
  \<open>re.search\<close>: the first position of the subject, from the left, at which the pattern
  matches. The result holds the subject from the start of the match, the subject after
  the match, and the groups.
\<close>

type_synonym match = "string \<times> string \<times> groups"

fun re_search :: "re_flags \<Rightarrow> regex \<Rightarrow> string \<Rightarrow> match option" where
  "re_search f r [] =
     (case rmatch f r [] [] of [] \<Rightarrow> None | (rest, g) # _ \<Rightarrow> Some ([], rest, g))"
| "re_search f r (x # t) =
     (case rmatch f r (x # t) [] of [] \<Rightarrow> re_search f r t
      | (rest, g) # _ \<Rightarrow> Some (x # t, rest, g))"

text \<open>\<open>m.group(n)\<close>: \<open>None\<close> when the group took no part in the match.\<close>

definition py_group :: "match \<Rightarrow> nat \<Rightarrow> string option" where
  "py_group m n = map_of (snd (snd m)) n"

text \<open>
  \<open>re.findall\<close> for a pattern with two groups: the scan reports the match at the
  leftmost position, skips the characters it covers and goes on; a group that took no
  part is reported as the empty string. After an empty match the scan moves on by one
  character.
\<close>

fun findall_scan :: "re_flags \<Rightarrow> regex \<Rightarrow> nat \<Rightarrow> string \<Rightarrow> groups list" where
  "findall_scan f r skip [] =
     (if 0 < skip then []
      else case rmatch f r [] [] of [] \<Rightarrow> [] | (rest, g) # _ \<Rightarrow> [g])"
| "findall_scan f r skip (x # t) =
     (if 0 < skip then findall_scan f r (skip - 1) t
      else case rmatch f r (x # t) [] of
             [] \<Rightarrow> findall_scan f r 0 t
           | (rest, g) # _ \<Rightarrow> g # findall_scan f r (length t - length rest) t)"

definition group_or_empty :: "groups \<Rightarrow> nat \<Rightarrow> string" where
  "group_or_empty g n = (case map_of g n of None \<Rightarrow> [] | Some t \<Rightarrow> t)"

definition re_findall2 :: "re_flags \<Rightarrow> regex \<Rightarrow> string \<Rightarrow> (string \<times> string) list" where
  "re_findall2 f r text =
     map (\<lambda>g. (group_or_empty g 1, group_or_empty g 2)) (findall_scan f r 0 text)"

subsection \<open>Pattern syntax\<close>

definition re_cat :: "regex list \<Rightarrow> regex" where
  "re_cat rs = foldr Seq rs Eps"

definition re_str :: "string \<Rightarrow> regex" where
  "re_str w = re_cat (map Lit w)"

definition re_plus :: "regex \<Rightarrow> regex" where
  "re_plus r = Repeat True 1 None r"

definition re_opt :: "regex \<Rightarrow> regex" where
  "re_opt r = Repeat True 0 (Some 1) r"

definition re_digit :: regex where
  "re_digit = In [CatDigit]"

definition re_space :: regex where
  "re_space = In [CatSpace]"

definition upper_AZ :: regex where
  "upper_AZ = In [Range CHR ''A'' CHR ''Z'']"

definition flags_I :: re_flags where
  "flags_I = \<lparr>ignorecase = True, dotall = False\<rparr>"

definition flags_IS :: re_flags where
  "flags_IS = \<lparr>ignorecase = True, dotall = True\<rparr>"

section \<open>The module constants\<close>

definition required_fields :: "string list" where
  "required_fields =
    [''Name'',
     ''Date of Birth'',
     ''Place of Birth'',
     ''Date of Interview'',
     ''Location of Interview'',
     ''Parent's Names'',
     ''Parent's Birthplace'',
     ''Parent's Occupation'',
     ''Siblings'',
     ''Spouse's Name'',
     ''Children's Names'',
     ''Grandchildren's Names'',
     ''Date of Immigration'',
     ''Country of Origin'',
     ''Reason for Immigration'',
     ''Mode of Travel'',
     ''Ports of Entry'',
     ''Destinations'',
     ''Occupation'',
     ''Employer'',
     ''Job Title'',
     ''Education Level'',
     ''Schools Attended'',
     ''Year of Graduation'',
     ''Health Issues'',
     ''Medical Treatments'',
     ''Cause of Death'',
     ''Church Affiliation'',
     ''Community Involvement'',
     ''Social Activities'',
     ''Language Spoken'',
     ''Cultural Practices'',
     ''Historical Events Experienced'',
     ''Geographical Locations'',
     ''Notes'',
     ''Sources'']"

definition date_fields :: "string list" where
  "date_fields = [''Date of Birth'', ''Date of Interview'', ''Date of Immigration'',
                  ''Year of Graduation'']"

text \<open>The place names of the loop of \<open>extract_fields_unlabeled\<close>, in its order.\<close>

definition gazetteer :: "string list" where
  "gazetteer = [''California'', ''Moline'', ''Campbells Island'', ''Chicago'', ''Florida'',
                ''Sweden'']"

section \<open>The patterns of \<open>extract_fields_unlabeled\<close>\<close>

text \<open>\<^verbatim>\<open>interview.*?(\d{1,2}(?:st|nd|rd|th)?\s+of\s+[A-Za-z]+\s+\d{4})\<close>\<close>

definition date_int_re :: regex where
  "date_int_re =
     re_cat [re_str ''interview'', Repeat False 0 None Dot,
       Group 1 (re_cat
         [Repeat True 1 (Some 2) re_digit,
          re_opt (Alt (re_str ''st'') (Alt (re_str ''nd'') (Alt (re_str ''rd'') (re_str ''th'')))),
          re_plus re_space, re_str ''of'', re_plus re_space,
          re_plus (In [Range CHR ''A'' CHR ''Z'', Range CHR ''a'' CHR ''z'']),
          re_plus re_space, Repeat True 4 (Some 4) re_digit])]"

text \<open>\<^verbatim>\<open>interview with\s+([A-Z][a-zA-Z]+(?:\s+[A-Z][a-zA-Z]+)+)\<close>\<close>

definition name_re :: regex where
  "name_re =
     re_cat [re_str ''interview with'', re_plus re_space,
       Group 1 (re_cat
         [upper_AZ,
          re_plus (In [Range CHR ''a'' CHR ''z'', Range CHR ''A'' CHR ''Z'']),
          re_plus (re_cat
            [re_plus re_space, upper_AZ,
             re_plus (In [Range CHR ''a'' CHR ''z'', Range CHR ''A'' CHR ''Z''])])])]"

text \<open>\<^verbatim>\<open>born (?:on\s+)?(\d{1,2}[/-]\d{1,2}[/-]\d{2,4})\<close>\<close>

definition dob_re :: regex where
  "dob_re =
     re_cat [re_str ''born '', re_opt (re_cat [re_str ''on'', re_plus re_space]),
       Group 1 (re_cat
         [Repeat True 1 (Some 2) re_digit, In [Chr CHR ''/'', Chr CHR ''-''],
          Repeat True 1 (Some 2) re_digit, In [Chr CHR ''/'', Chr CHR ''-''],
          Repeat True 2 (Some 4) re_digit])]"

text \<open>\<^verbatim>\<open>born in\s+([A-Za-z\s]+)[\.,]\<close>\<close>

definition pob_re :: regex where
  "pob_re =
     re_cat [re_str ''born in'', re_plus re_space,
       Group 1 (re_plus (In [Range CHR ''A'' CHR ''Z'', Range CHR ''a'' CHR ''z'', CatSpace])),
       In [Chr CHR ''.'', Chr CHR '','']]"

text \<open>\<^verbatim>\<open>my\s+(?:younger\s+)?(brother|sister)\s+([A-Z][a-zA-Z]+)\<close>\<close>

definition siblings_re :: regex where
  "siblings_re =
     re_cat [re_str ''my'', re_plus re_space,
       re_opt (re_cat [re_str ''younger'', re_plus re_space]),
       Group 1 (Alt (re_str ''brother'') (re_str ''sister'')),
       re_plus re_space,
       Group 2 (re_cat
         [upper_AZ, re_plus (In [Range CHR ''a'' CHR ''z'', Range CHR ''A'' CHR ''Z''])])]"

text \<open>\<^verbatim>\<open>(Salvation Army(?: training college)?)\<close>\<close>

definition church_re :: regex where
  "church_re = Group 1 (re_cat [re_str ''Salvation Army'', re_opt (re_str '' training college'')])"

text \<open>\<^verbatim>\<open>(John Deere)\<close>\<close>

definition employer_re :: regex where
  "employer_re = Group 1 (re_str ''John Deere'')"

text \<open>\<^verbatim>\<open>(Salvation Army training college in Chicago)\<close>\<close>

definition education_re :: regex where
  "education_re = Group 1 (re_str ''Salvation Army training college in Chicago'')"

text \<open>
  A place name is used as a pattern as it stands: the names hold letters and spaces
  only, which stand for themselves.
\<close>

definition loc_re :: "string \<Rightarrow> regex" where
  "loc_re loc = re_str loc"

section \<open>Dates of the \<open>datetime\<close> module\<close>

datatype date = Date (year: int) (month: int) (day: int)

definition is_leap :: "int \<Rightarrow> bool" where
  "is_leap y = (y mod 4 = 0 \<and> (y mod 100 \<noteq> 0 \<or> y mod 400 = 0))"

text \<open>The table \<open>_DAYS_IN_MONTH\<close>, indexed from 1.\<close>

definition days_in_month_tab :: "int list" where
  "days_in_month_tab = [31, 28, 31, 30, 31, 30, 31, 31, 30, 31, 30, 31]"

definition days_in_month :: "int \<Rightarrow> int \<Rightarrow> int" where
  "days_in_month y m =
     (if m = 2 \<and> is_leap y then 29 else days_in_month_tab ! nat (m - 1))"

definition days_before_year :: "int \<Rightarrow> int" where
  "days_before_year y = (let p = y - 1 in p * 365 + p div 4 - p div 100 + p div 400)"

text \<open>The table \<open>_DAYS_BEFORE_MONTH\<close>, indexed from 1.\<close>

definition days_before_month_tab :: "int list" where
  "days_before_month_tab = [0, 31, 59, 90, 120, 151, 181, 212, 243, 273, 304, 334]"

definition days_before_month :: "int \<Rightarrow> int \<Rightarrow> int" where
  "days_before_month y m =
     days_before_month_tab ! nat (m - 1) + (if 2 < m \<and> is_leap y then 1 else 0)"

text \<open>\<open>date.toordinal\<close>: 0001-01-01 is day 1.\<close>

definition ymd2ord :: "date \<Rightarrow> int" where
  "ymd2ord d = days_before_year (year d) + days_before_month (year d) (month d) + day d"

definition valid_date :: "date \<Rightarrow> bool" where
  "valid_date d = (1 \<le> year d \<and> year d \<le> 9999 \<and> 1 \<le> month d \<and> month d \<le> 12 \<and>
                   1 \<le> day d \<and> day d \<le> days_in_month (year d) (month d))"

text \<open>
  \<open>date.fromordinal\<close>, the function \<open>_ord2ymd\<close> of the module. Its last part finds
  month and day from the day of the year, counted from 0: an estimate of the month,
  corrected when it is too large.
\<close>

definition month_day :: "bool \<Rightarrow> int \<Rightarrow> int \<times> int" where
  "month_day leapyear n =
     (let m = (n + 50) div 32;
          preceding = days_before_month_tab ! nat (m - 1) + (if 2 < m \<and> leapyear then 1 else 0)
      in if n < preceding
         then (let m' = m - 1;
                   preceding' = preceding -
                     (days_in_month_tab ! nat (m' - 1) + (if m' = 2 \<and> leapyear then 1 else 0))
               in (m', n - preceding' + 1))
         else (m, n - preceding + 1))"

definition ord2ymd :: "int \<Rightarrow> date" where
  "ord2ymd n0 =
    (let n = n0 - 1;
         n400 = n div 146097; n = n mod 146097;
         y = n400 * 400 + 1;
         n100 = n div 36524; n = n mod 36524;
         n4 = n div 1461; n = n mod 1461;
         n1 = n div 365; n = n mod 365;
         y = y + n100 * 100 + n4 * 4 + n1
     in if n1 = 4 \<or> n100 = 4 then Date (y - 1) 12 31
        else
          (let leapyear = (n1 = 3 \<and> (n4 \<noteq> 24 \<or> n100 = 3));
               (m, d) = month_day leapyear n
           in Date y m d))"

definition max_ordinal :: int where
  "max_ordinal = 3652059"

text \<open>
  \<open>timedelta\<close> in its normal form: days, seconds below 86400, microseconds below
  1000000.
\<close>

datatype timedelta = Timedelta (td_days: int) (td_seconds: int) (td_microseconds: int)

text \<open>
  A float is modelled by the rational number it denotes, or one of the three special
  values. Comparison with an integer and \<open>int(x)\<close> are exact on floats, so the year
  branch of \<open>format_date\<close> is rendered exactly. \<open>timedelta(days=x)\<close> rounds the
  microseconds of \<open>x\<close> days to the nearest integer, ties to even; its one floating-point
  product (the fraction of \<open>x\<close> by the microseconds of a day) is taken exactly here.
\<close>

datatype pyfloat = Fin rat | PInf | NInf | NaN

definition round_half_even :: "rat \<Rightarrow> int" where
  "round_half_even x =
     (let f = \<lfloor>x\<rfloor>; r = x - of_int f
      in if r < 1 / 2 then f else if 1 / 2 < r then f + 1 else if even f then f else f + 1)"

definition microseconds_to_delta :: "int \<Rightarrow> exn + timedelta" where
  "microseconds_to_delta us =
     (let s = us div 1000000; u = us mod 1000000; d = s div 86400; s' = s mod 86400
      in if 999999999 < \<bar>d\<bar> then Inl OverflowError else Inr (Timedelta d s' u))"

fun timedelta_of_days :: "pyfloat \<Rightarrow> exn + timedelta" where
  "timedelta_of_days (Fin q) = microseconds_to_delta (round_half_even (q * 86400000000))"
| "timedelta_of_days NaN = Inl ValueError"
| "timedelta_of_days PInf = Inl OverflowError"
| "timedelta_of_days NInf = Inl OverflowError"

text \<open>
  \<open>datetime + timedelta\<close> for a \<open>datetime\<close> at midnight: seconds and microseconds of
  the difference only move the time of day, which \<open>format_date\<close> does not print.
\<close>

definition datetime_add :: "date \<Rightarrow> timedelta \<Rightarrow> exn + date" where
  "datetime_add base delta =
     (let n = ymd2ord base + td_days delta
      in if 0 < n \<and> n \<le> max_ordinal then Inr (ord2ymd n) else Inl OverflowError)"

text \<open>
  \<open>strftime("%Y-%m-%d")\<close>: month and day on two digits. The year is printed by the C
  library of the platform, which leaves years below 1000 unpadded on some platforms
  and pads them on others; the unpadded form is taken here. From year 1000 on all
  platforms agree.
\<close>

definition pad2 :: "int \<Rightarrow> string" where
  "pad2 n = (if n < 10 then CHR ''0'' # py_str_int n else py_str_int n)"

definition strftime_ymd :: "date \<Rightarrow> string" where
  "strftime_ymd d = py_str_int (year d) @ ''-'' @ pad2 (month d) @ ''-'' @ pad2 (day d)"

section \<open>Values and the parameters of the runtime\<close>

text \<open>The arguments of \<open>format_date\<close>: an \<open>int\<close>, a \<open>float\<close> or a \<open>str\<close>.\<close>

datatype pyval = PyInt int | PyFloat pyfloat | PyStr string

text \<open>
  What \<open>pd.to_datetime(value, errors='coerce')\<close> gives on a string: a timestamp, of
  which only the calendar date is printed, the missing value \<open>NaT\<close>, or an exception.
\<close>

datatype parse_result = Timestamp date | NaT | Raises exn

text \<open>
  Two things are not fixed by \<open>regex_parser.py\<close>: the date parser of the pandas library,
  and the order in which a \<open>set\<close> of strings is iterated (it depends on the hashes of
  the strings). Both are parameters: \<open>to_datetime\<close> is the parser; \<open>set_iter xs\<close> is the
  order in which the set built from the elements \<open>xs\<close> is iterated.
\<close>

record runtime =
  to_datetime :: "string \<Rightarrow> parse_result"
  set_iter :: "string list \<Rightarrow> string list"


section \<open>\<open>format_date\<close>\<close>

text \<open>\<open>1800 <= value <= 2100\<close>\<close>

fun in_year_window :: "pyval \<Rightarrow> bool" where
  "in_year_window (PyInt n) = (1800 \<le> n \<and> n \<le> 2100)"
| "in_year_window (PyFloat (Fin q)) = (1800 \<le> q \<and> q \<le> 2100)"
| "in_year_window (PyFloat PInf) = False"
| "in_year_window (PyFloat NInf) = False"
| "in_year_window (PyFloat NaN) = False"
| "in_year_window (PyStr s) = False"

text \<open>\<open>int(value)\<close>: truncation towards zero.\<close>

fun py_int :: "pyval \<Rightarrow> exn + int" where
  "py_int (PyInt n) = Inr n"
| "py_int (PyFloat (Fin q)) = Inr (if 0 \<le> q then \<lfloor>q\<rfloor> else \<lceil>q\<rceil>)"
| "py_int (PyFloat PInf) = Inl OverflowError"
| "py_int (PyFloat NInf) = Inl OverflowError"
| "py_int (PyFloat NaN) = Inl ValueError"
| "py_int (PyStr s) = Inl ValueError"

text \<open>
  \<open>float(value)\<close>. An integer up to \<open>2 ^ 53\<close> in magnitude is converted exactly. Beyond
  that \<open>float\<close> either raises \<open>OverflowError\<close> or rounds to a float of at least that
  magnitude, for which \<open>timedelta\<close> raises \<open>OverflowError\<close>; both are rendered by the
  first.
\<close>

fun py_float :: "pyval \<Rightarrow> exn + pyfloat" where
  "py_float (PyInt n) = (if \<bar>n\<bar> \<le> 2 ^ 53 then Inr (Fin (of_int n)) else Inl OverflowError)"
| "py_float (PyFloat x) = Inr x"
| "py_float (PyStr s) = Inl ValueError"

definition epoch :: date where
  "epoch = Date 1899 12 30"

text \<open>The body of the \<open>try\<close> block.\<close>

definition format_date_try :: "runtime \<Rightarrow> pyval \<Rightarrow> exn + string" where
  "format_date_try rt v =
     (case v of
        PyStr s \<Rightarrow>
          (case to_datetime rt s of
             Raises e \<Rightarrow> Inl e
           | NaT \<Rightarrow> Inr ''Invalid Date''
           | Timestamp d \<Rightarrow> Inr (strftime_ymd d))
      | _ \<Rightarrow>
          if in_year_window v
          then (case py_int v of Inl e \<Rightarrow> Inl e | Inr y \<Rightarrow> Inr (py_str_int y @ ''-01-01''))
          else (case py_float v of Inl e \<Rightarrow> Inl e | Inr x \<Rightarrow>
                 (case timedelta_of_days x of Inl e \<Rightarrow> Inl e | Inr delta \<Rightarrow>
                   (case datetime_add epoch delta of Inl e \<Rightarrow> Inl e | Inr converted \<Rightarrow>
                      Inr (strftime_ymd converted)))))"

text \<open>\<open>except Exception\<close>: every exception of the body becomes \<open>"Invalid Date"\<close>.\<close>

definition format_date :: "runtime \<Rightarrow> pyval \<Rightarrow> exn + string" where
  "format_date rt v =
     (case format_date_try rt v of Inl e \<Rightarrow> Inr ''Invalid Date'' | Inr s \<Rightarrow> Inr s)"

section \<open>\<open>extract_fields_unlabeled\<close>\<close>

text \<open>
  A \<open>dict\<close> keeps its keys in the order of their first insertion; assigning to a key
  that is present replaces its value in place.
\<close>

type_synonym pydict = "(string \<times> string) list"

definition setitem :: "pydict \<Rightarrow> string \<Rightarrow> string \<Rightarrow> pydict" where
  "setitem d k v = AList.update k v d"

definition getitem :: "pydict \<Rightarrow> string \<Rightarrow> exn + string" where
  "getitem d k = (case map_of d k of None \<Rightarrow> Inl KeyError | Some v \<Rightarrow> Inr v)"

text \<open>\<open>{field: "N/A" for field in required_fields}\<close>\<close>

definition init_data :: pydict where
  "init_data = foldl (\<lambda>d field. setitem d field ''N/A'') [] required_fields"

text \<open>
  The step the function repeats for seven fields:
  \<^verbatim>\<open>m = re.search(pattern, text, flags)\<close>, then
  \<^verbatim>\<open>if m: data[field] = m.group(1).strip()\<close>.
\<close>

definition search_rule ::
    "re_flags \<Rightarrow> regex \<Rightarrow> string \<Rightarrow> string \<Rightarrow> pydict \<Rightarrow> exn + pydict" where
  "search_rule f r field text data =
     (case re_search f r text of
        None \<Rightarrow> Inr data
      | Some m \<Rightarrow>
          (case py_group m 1 of
             None \<Rightarrow> Inl AttributeError
           | Some t \<Rightarrow> Inr (setitem data field (py_strip t))))"

text \<open>The sibling step: all matches, the second group of each, as a set, joined.\<close>

definition siblings_rule :: "runtime \<Rightarrow> string \<Rightarrow> pydict \<Rightarrow> exn + pydict" where
  "siblings_rule rt text data =
     (let siblings_matches = re_findall2 flags_I siblings_re text
      in if siblings_matches \<noteq> []
         then Inr (setitem data ''Siblings''
                     (py_join '', '' (set_iter rt (map snd siblings_matches))))
         else Inr data)"

text \<open>The place-name step: \<open>sorted(set(locations_found))\<close>, joined.\<close>

definition locations_rule :: "runtime \<Rightarrow> string \<Rightarrow> pydict \<Rightarrow> exn + pydict" where
  "locations_rule rt text data =
     (let locations_found = filter (\<lambda>loc. re_search flags_I (loc_re loc) text \<noteq> None) gazetteer
      in if locations_found \<noteq> []
         then Inr (setitem data ''Geographical Locations''
                     (py_join '', '' (sort (set_iter rt locations_found))))
         else Inr data)"

text \<open>The final loop over \<open>date_fields\<close>.\<close>

fun format_date_fields :: "runtime \<Rightarrow> string list \<Rightarrow> pydict \<Rightarrow> exn + pydict" where
  "format_date_fields rt [] data = Inr data"
| "format_date_fields rt (field # fs) data =
     (case getitem data field of
        Inl e \<Rightarrow> Inl e
      | Inr v \<Rightarrow>
          if v \<notin> set [''N/A'', '''', ''Invalid Date'']
          then (case format_date rt (PyStr v) of
                  Inl e \<Rightarrow> Inl e
                | Inr s \<Rightarrow> format_date_fields rt fs (setitem data field s))
          else format_date_fields rt fs data)"

text \<open>Sequencing of steps that may raise.\<close>

definition and_then :: "exn + 'a \<Rightarrow> ('a \<Rightarrow> exn + 'b) \<Rightarrow> exn + 'b" where
  "and_then x k = (case x of Inl e \<Rightarrow> Inl e | Inr a \<Rightarrow> k a)"

definition extract_fields_unlabeled :: "runtime \<Rightarrow> string \<Rightarrow> string \<Rightarrow> exn + pydict" where
  "extract_fields_unlabeled rt text filename =
     and_then (search_rule flags_IS date_int_re ''Date of Interview'' text init_data) (\<lambda>data.
     and_then (search_rule flags_I name_re ''Name'' text data) (\<lambda>data.
     and_then (search_rule flags_I dob_re ''Date of Birth'' text data) (\<lambda>data.
     and_then (search_rule flags_I pob_re ''Place of Birth'' text data) (\<lambda>data.
     and_then (siblings_rule rt text data) (\<lambda>data.
     and_then (search_rule flags_I church_re ''Church Affiliation'' text data) (\<lambda>data.
     and_then (search_rule flags_I employer_re ''Employer'' text data) (\<lambda>data.
     and_then (search_rule flags_I education_re ''Schools Attended'' text data) (\<lambda>data.
     and_then (locations_rule rt text data) (\<lambda>data.
     format_date_fields rt date_fields (setitem data ''Sources'' filename))))))))))"

section \<open>Notions used to state the properties\<close>

text \<open>\<open>sets_group n r\<close>: every match of \<open>r\<close> runs through group \<open>n\<close>.\<close>

primrec sets_group :: "nat \<Rightarrow> regex \<Rightarrow> bool" where
  "sets_group n Eps = False"
| "sets_group n (Lit c) = False"
| "sets_group n Dot = False"
| "sets_group n (In cs) = False"
| "sets_group n (Seq a b) = (sets_group n a \<or> sets_group n b)"
| "sets_group n (Alt a b) = (sets_group n a \<and> sets_group n b)"
| "sets_group n (Repeat gr lo hi a) = (0 < lo \<and> hi \<noteq> Some 0 \<and> sets_group n a)"
| "sets_group n (Group k a) = (k = n \<or> sets_group n a)"

text \<open>What a first-match step finds: the stripped first group of the first match.\<close>

definition rule_value :: "re_flags \<Rightarrow> regex \<Rightarrow> string \<Rightarrow> string option" where
  "rule_value f r text =
     (case re_search f r text of None \<Rightarrow> None | Some m \<Rightarrow> map_option py_strip (py_group m 1))"

definition assign :: "string \<Rightarrow> string option \<Rightarrow> pydict \<Rightarrow> pydict" where
  "assign k v d = (case v of None \<Rightarrow> d | Some x \<Rightarrow> setitem d k x)"

text \<open>The names captured by the sibling pattern, in the order of the text.\<close>

definition sibling_names :: "string \<Rightarrow> string list" where
  "sibling_names text = map snd (re_findall2 flags_I siblings_re text)"

definition siblings_value :: "runtime \<Rightarrow> string \<Rightarrow> string option" where
  "siblings_value rt text =
     (if sibling_names text \<noteq> []
      then Some (py_join '', '' (set_iter rt (sibling_names text))) else None)"

definition locations_found :: "string \<Rightarrow> string list" where
  "locations_found text =
     filter (\<lambda>loc. re_search flags_I (loc_re loc) text \<noteq> None) gazetteer"

definition locations_value :: "runtime \<Rightarrow> string \<Rightarrow> string option" where
  "locations_value rt text =
     (if locations_found text \<noteq> []
      then Some (py_join '', '' (sort (set_iter rt (locations_found text)))) else None)"

text \<open>\<open>format_date\<close> on a string, as a string.\<close>

definition date_str :: "runtime \<Rightarrow> string \<Rightarrow> string" where
  "date_str rt v =
     (case format_date_try rt (PyStr v) of Inl e \<Rightarrow> ''Invalid Date'' | Inr s \<Rightarrow> s)"

definition normalized :: "runtime \<Rightarrow> string \<Rightarrow> string" where
  "normalized rt v = (if v \<notin> set [''N/A'', '''', ''Invalid Date''] then date_str rt v else v)"

text \<open>A record as a function from field names to values.\<close>

definition upd_opt ::
    "(string \<Rightarrow> string) \<Rightarrow> string \<Rightarrow> string option \<Rightarrow> (string \<Rightarrow> string)" where
  "upd_opt g k v = (case v of None \<Rightarrow> g | Some x \<Rightarrow> g(k := x))"

definition dict_of :: "string list \<Rightarrow> (string \<Rightarrow> string) \<Rightarrow> pydict" where
  "dict_of ks g = map (\<lambda>k. (k, g k)) ks"

definition rules_map :: "runtime \<Rightarrow> string \<Rightarrow> string \<Rightarrow> string" where
  "rules_map rt text =
     upd_opt (upd_opt (upd_opt (upd_opt (upd_opt (upd_opt (upd_opt (upd_opt (upd_opt
       (\<lambda>k. ''N/A'')
       ''Date of Interview'' (rule_value flags_IS date_int_re text))
       ''Name'' (rule_value flags_I name_re text))
       ''Date of Birth'' (rule_value flags_I dob_re text))
       ''Place of Birth'' (rule_value flags_I pob_re text))
       ''Siblings'' (siblings_value rt text))
       ''Church Affiliation'' (rule_value flags_I church_re text))
       ''Employer'' (rule_value flags_I employer_re text))
       ''Schools Attended'' (rule_value flags_I education_re text))
       ''Geographical Locations'' (locations_value rt text)"

definition norm_step ::
    "runtime \<Rightarrow> (string \<Rightarrow> string) \<Rightarrow> string \<Rightarrow> (string \<Rightarrow> string)" where
  "norm_step rt g k = g(k := normalized rt (g k))"

definition record_map :: "runtime \<Rightarrow> string \<Rightarrow> string \<Rightarrow> string \<Rightarrow> string" where
  "record_map rt text filename =
     foldl (norm_step rt) ((rules_map rt text)(''Sources'' := filename)) date_fields"

text \<open>A text with no recognizable pattern: no step of the function finds anything.\<close>

definition no_recognizable_pattern :: "string \<Rightarrow> bool" where
  "no_recognizable_pattern text =
     (re_search flags_IS date_int_re text = None \<and>
      re_search flags_I name_re text = None \<and>
      re_search flags_I dob_re text = None \<and>
      re_search flags_I pob_re text = None \<and>
      re_findall2 flags_I siblings_re text = [] \<and>
      re_search flags_I church_re text = None \<and>
      re_search flags_I employer_re text = None \<and>
      re_search flags_I education_re text = None \<and>
      list_all (\<lambda>loc. re_search flags_I (loc_re loc) text = None) gazetteer)"

text \<open>The fields for which the function has no step.\<close>

definition unruled_fields :: "string list" where
  "unruled_fields =
    [''Location of Interview'', ''Parent's Names'', ''Parent's Birthplace'',
     ''Parent's Occupation'', ''Spouse's Name'', ''Children's Names'',
     ''Grandchildren's Names'', ''Date of Immigration'', ''Country of Origin'',
     ''Reason for Immigration'', ''Mode of Travel'', ''Ports of Entry'', ''Destinations'',
     ''Occupation'', ''Job Title'', ''Education Level'', ''Year of Graduation'',
     ''Health Issues'', ''Medical Treatments'', ''Cause of Death'',
     ''Community Involvement'', ''Social Activities'', ''Language Spoken'',
     ''Cultural Practices'', ''Historical Events Experienced'', ''Notes'']"

definition ruled_fields :: "string list" where
  "ruled_fields =
    [''Name'', ''Date of Birth'', ''Place of Birth'', ''Date of Interview'', ''Siblings'',
     ''Church Affiliation'', ''Employer'', ''Schools Attended'', ''Geographical Locations'',
     ''Sources'']"

text \<open>
  A word occurs in a text case-insensitively when some stretch of the text has the
  same lower-case form as the word.
\<close>

definition ci_eq :: "string \<Rightarrow> string \<Rightarrow> bool" where
  "ci_eq u w = (map py_lower u = map py_lower w)"

fun occurs_ci :: "string \<Rightarrow> string \<Rightarrow> bool" where
  "occurs_ci w [] = ci_eq [] w"
| "occurs_ci w (x # t) = (ci_eq (take (length w) (x # t)) w \<or> occurs_ci w t)"


text \<open>
  The form \<open>YYYY-MM-DD\<close>: ten characters, digits around two hyphens; and the date such
  a string denotes.
\<close>

definition digits_value :: "string \<Rightarrow> int" where
  "digits_value s = foldl (\<lambda>a c. 10 * a + (code_point c - 48)) 0 s"

definition iso_form :: "string \<Rightarrow> bool" where
  "iso_form s =
     (length s = 10 \<and> s ! 4 = CHR ''-'' \<and> s ! 7 = CHR ''-'' \<and>
      list_all py_isdecimal (take 4 s) \<and> list_all py_isdecimal (take 2 (drop 5 s)) \<and>
      list_all py_isdecimal (drop 8 s))"

definition iso_date :: "string \<Rightarrow> date" where
  "iso_date s =
     Date (digits_value (take 4 s)) (digits_value (take 2 (drop 5 s))) (digits_value (drop 8 s))"

definition is_iso_date :: "string \<Rightarrow> bool" where
  "is_iso_date s = (iso_form s \<and> valid_date (iso_date s))"

text \<open>
  The number of whole days of \<open>timedelta(days=x)\<close>: the microseconds of \<open>x\<close> days,
  rounded, over the microseconds of a day.
\<close>

definition serial_days :: "rat \<Rightarrow> int" where
  "serial_days q = round_half_even (q * 86400000000) div 86400000000"

text \<open>
  A runtime to run the functions on concrete inputs: sets are iterated in the order of
  first insertion, and the parser reads the form \<open>YYYY-MM-DD\<close> and one written date.
\<close>

definition sample_to_datetime :: "string \<Rightarrow> parse_result" where
  "sample_to_datetime s =
     (if is_iso_date s then Timestamp (iso_date s)
      else if s = ''11th of March 1986'' then Timestamp (Date 1986 3 11)
      else NaT)"

definition sample_rt :: runtime where
  "sample_rt = \<lparr>to_datetime = sample_to_datetime, set_iter = remdups\<rparr>"

text \<open>The example text of the specification.\<close>

definition example_text :: string where
  "example_text = ''... interview with Jane Mary Smith ... born in Stockholm, Sweden. ... interview conducted 11th of March 1986 ...''"

section \<open>Properties of the matcher\<close>


declare rmatch.simps(8) [simp del]

lemma rmatch_Repeat_done:
  "hi = Some 0 \<Longrightarrow> rmatch f (Repeat gr lo hi a) s g = [(s, g)]"
  by (subst rmatch.simps(8)) simp

lemma rmatch_Repeat_must:
  "hi \<noteq> Some 0 \<Longrightarrow> 0 < lo \<Longrightarrow>
   rmatch f (Repeat gr lo hi a) s g =
     concat (map (\<lambda>(s', g'). rmatch f (Repeat gr (lo - 1) (dec_max hi) a) s' g') (rmatch f a s g))"
  by (subst rmatch.simps(8)) simp

lemma rmatch_Repeat_may:
  "hi \<noteq> Some 0 \<Longrightarrow>
   rmatch f (Repeat gr 0 hi a) s g =
     (let more = concat (map (\<lambda>(s', g').
                   if length s' < length s
                   then rmatch f (Repeat gr 0 (dec_max hi) a) s' g' else [])
                 (rmatch f a s g))
      in if gr then more @ [(s, g)] else (s, g) # more)"
  by (subst rmatch.simps(8)) simp

lemma in_rmatch_Repeat_must:
  assumes "(s', g') \<in> set (rmatch f (Repeat gr lo hi a) s g)" "hi \<noteq> Some 0" "0 < lo"
  obtains s1 g1 where "(s1, g1) \<in> set (rmatch f a s g)"
    "(s', g') \<in> set (rmatch f (Repeat gr (lo - 1) (dec_max hi) a) s1 g1)"
  using assms by (auto simp: rmatch_Repeat_must)

lemma in_rmatch_Repeat_may:
  assumes "(s', g') \<in> set (rmatch f (Repeat gr 0 hi a) s g)" "hi \<noteq> Some 0"
  obtains "s' = s" "g' = g"
  | s1 g1 where "(s1, g1) \<in> set (rmatch f a s g)" "length s1 < length s"
      "(s', g') \<in> set (rmatch f (Repeat gr 0 (dec_max hi) a) s1 g1)"
  using assms by (auto simp: rmatch_Repeat_may Let_def split: if_splits)

lemma rmatch_keeps_groups:
  "(s', g') \<in> set (rmatch f r s g) \<Longrightarrow> n \<in> fst ` set g \<Longrightarrow> n \<in> fst ` set g'"
proof (induction f r s g arbitrary: s' g' rule: rmatch.induct)
  case (1 f s g)
  then show ?case by simp
next
  case (2 f c s g)
  then show ?case by (auto split: list.splits if_splits)
next
  case (3 f s g)
  then show ?case by (auto split: list.splits if_splits)
next
  case (4 f cs s g)
  then show ?case by (auto split: list.splits if_splits)
next
  case (5 f a b s g)
  from 5(3) obtain s1 g1 where a: "(s1, g1) \<in> set (rmatch f a s g)"
    and b: "(s', g') \<in> set (rmatch f b s1 g1)" by auto
  from 5(1)[OF a 5(4)] have "n \<in> fst ` set g1" .
  from 5(2)[OF a _ b this] show ?case by simp
next
  case (6 f a b s g)
  from 6(3) have "(s', g') \<in> set (rmatch f a s g) \<or> (s', g') \<in> set (rmatch f b s g)" by simp
  with 6(1)[OF _ 6(4)] 6(2)[OF _ 6(4)] show ?case by blast
next
  case (7 f k a s g)
  from 7(2) obtain g1 where a: "(s', g1) \<in> set (rmatch f a s g)"
    and g': "g' = AList.update k (take (length s - length s') s) g1" by auto
  from 7(1)[OF a 7(3)] show ?case by (simp add: g' dom_update)
next
  case (8 f greedy lo hi a s g)
  show ?case
  proof (cases "hi = Some 0")
    case True
    with 8(5) have "g' = g" by (simp add: rmatch_Repeat_done)
    with 8(6) show ?thesis by simp
  next
    case hi: False
    show ?thesis
    proof (cases "0 < lo")
      case True
      from 8(5) hi True obtain s1 g1 where a: "(s1, g1) \<in> set (rmatch f a s g)"
        and b: "(s', g') \<in> set (rmatch f (Repeat greedy (lo - 1) (dec_max hi) a) s1 g1)"
        by (rule in_rmatch_Repeat_must)
      from 8(1)[OF hi True a 8(6)] have "n \<in> fst ` set g1" .
      from 8(2)[OF hi True a _ b this] show ?thesis by simp
    next
      case False
      then have lo: "lo = 0" by simp
      from 8(5) hi show ?thesis unfolding lo
      proof (cases rule: in_rmatch_Repeat_may)
        case 1
        with 8(6) show ?thesis by simp
      next
        case (2 s1 g1)
        from 8(3)[OF hi False 2(1) 8(6)] have "n \<in> fst ` set g1" .
        from 8(4)[OF hi False 2(1) _ 2(2) _ this] 2(3) lo show ?thesis by simp
      qed
    qed
  qed
qed



lemma rmatch_sets_group:
  "(s', g') \<in> set (rmatch f r s g) \<Longrightarrow> sets_group n r \<Longrightarrow> n \<in> fst ` set g'"
proof (induction f r s g arbitrary: s' g' rule: rmatch.induct)
  case (5 f a b s g)
  from 5(3) obtain s1 g1 where a: "(s1, g1) \<in> set (rmatch f a s g)"
    and b: "(s', g') \<in> set (rmatch f b s1 g1)" by auto
  from 5(4) have "sets_group n a \<or> sets_group n b" by simp
  then show ?case
  proof
    assume "sets_group n a"
    from 5(1)[OF a this] have "n \<in> fst ` set g1" .
    with b show ?thesis by (rule rmatch_keeps_groups)
  next
    assume "sets_group n b"
    from 5(2)[OF a _ b this] show ?thesis by simp
  qed
next
  case (6 f a b s g)
  from 6(3) have "(s', g') \<in> set (rmatch f a s g) \<or> (s', g') \<in> set (rmatch f b s g)" by simp
  moreover from 6(4) have "sets_group n a" "sets_group n b" by simp_all
  ultimately show ?case using 6(1) 6(2) by blast
next
  case (7 f k a s g)
  from 7(2) obtain g1 where a: "(s', g1) \<in> set (rmatch f a s g)"
    and g': "g' = AList.update k (take (length s - length s') s) g1" by auto
  show ?case
  proof (cases "k = n")
    case True
    then show ?thesis by (simp add: g' dom_update)
  next
    case False
    with 7(3) have "sets_group n a" by simp
    from 7(1)[OF a this] show ?thesis by (simp add: g' dom_update)
  qed
next
  case (8 f greedy lo hi a s g)
  from 8(6) have lo: "0 < lo" and hi: "hi \<noteq> Some 0" and sa: "sets_group n a" by simp_all
  from 8(5) hi lo obtain s1 g1 where a: "(s1, g1) \<in> set (rmatch f a s g)"
    and b: "(s', g') \<in> set (rmatch f (Repeat greedy (lo - 1) (dec_max hi) a) s1 g1)"
    by (rule in_rmatch_Repeat_must)
  from 8(1)[OF hi lo a sa] have "n \<in> fst ` set g1" .
  with b show ?case by (rule rmatch_keeps_groups)
qed simp_all

lemma re_search_sets_group:
  "re_search f r s = Some m \<Longrightarrow> sets_group n r \<Longrightarrow> \<exists>t. py_group m n = Some t"
proof (induction s)
  case Nil
  then obtain rest g where "(rest, g) \<in> set (rmatch f r [] [])" "m = ([], rest, g)"
    by (auto split: list.splits)
  with rmatch_sets_group[OF this(1) Nil(2)] show ?case
    by (auto simp: py_group_def weak_map_of_SomeI image_iff)
next
  case (Cons x t)
  show ?case
  proof (cases "rmatch f r (x # t) []")
    case Nil
    with Cons show ?thesis by simp
  next
    case (Cons p ps)
    obtain rest g where p: "p = (rest, g)" by (cases p)
    with Cons Cons.prems have m: "m = (x # t, rest, g)" by simp
    from Cons p have "(rest, g) \<in> set (rmatch f r (x # t) [])" by simp
    from rmatch_sets_group[OF this Cons.prems(2)] obtain v where "(n, v) \<in> set g" by auto
    then obtain t' where "map_of g n = Some t'" by (meson weak_map_of_SomeI)
    then show ?thesis by (simp add: m py_group_def)
  qed
qed

lemma search_rule_eq:
  assumes "sets_group 1 r"
  shows "search_rule f r field text data = Inr (assign field (rule_value f r text) data)"
proof (cases "re_search f r text")
  case None
  then show ?thesis by (simp add: search_rule_def rule_value_def assign_def)
next
  case (Some m)
  from re_search_sets_group[OF Some assms] obtain t where "py_group m 1 = Some t" ..
  with Some show ?thesis by (simp add: search_rule_def rule_value_def assign_def)
qed

lemma sets_group_patterns:
  "sets_group 1 date_int_re" "sets_group 1 name_re" "sets_group 1 dob_re" "sets_group 1 pob_re"
  "sets_group 1 church_re" "sets_group 1 employer_re" "sets_group 1 education_re"
  by (simp_all add: date_int_re_def name_re_def dob_re_def pob_re_def church_re_def
        employer_re_def education_re_def re_cat_def)


section \<open>The record returned by \<open>extract_fields_unlabeled\<close>\<close>


lemma distinct_required_fields: "distinct required_fields"
  by (simp add: required_fields_def)

lemma setitem_dict_of:
  "distinct ks \<Longrightarrow> k \<in> set ks \<Longrightarrow> setitem (dict_of ks g) k v = dict_of ks (g(k := v))"
  unfolding setitem_def dict_of_def
  by (induction ks) auto

lemma assign_dict_of:
  "distinct ks \<Longrightarrow> k \<in> set ks \<Longrightarrow> assign k v (dict_of ks g) = dict_of ks (upd_opt g k v)"
  by (cases v) (simp_all add: assign_def upd_opt_def setitem_dict_of)

lemma map_of_dict_of: "k \<in> set ks \<Longrightarrow> map_of (dict_of ks g) k = Some (g k)"
  unfolding dict_of_def by (induction ks) auto

lemma setitem_new: "k \<notin> fst ` set d \<Longrightarrow> setitem d k v = d @ [(k, v)]"
  unfolding setitem_def by (induction d) auto

lemma foldl_setitem_fresh:
  "distinct (pre @ ks) \<Longrightarrow>
   foldl (\<lambda>d field. setitem d field v) (dict_of pre (\<lambda>k. v)) ks = dict_of (pre @ ks) (\<lambda>k. v)"
proof (induction ks arbitrary: pre)
  case Nil
  then show ?case by simp
next
  case (Cons k ks)
  from Cons.prems have "k \<notin> fst ` set (dict_of pre (\<lambda>k. v))"
    by (auto simp: dict_of_def)
  then have "setitem (dict_of pre (\<lambda>k. v)) k v = dict_of (pre @ [k]) (\<lambda>k. v)"
    by (simp add: setitem_new dict_of_def)
  moreover from Cons.prems have "distinct ((pre @ [k]) @ ks)" by simp
  ultimately show ?case using Cons.IH[of "pre @ [k]"] by simp
qed

lemma init_data_eq: "init_data = dict_of required_fields (\<lambda>k. ''N/A'')"
  using foldl_setitem_fresh[of "[]" required_fields "''N/A''"] distinct_required_fields
  by (simp add: init_data_def dict_of_def)

lemma format_date_eq: "format_date rt (PyStr v) = Inr (date_str rt v)"
  by (simp add: format_date_def date_str_def split: sum.splits)

lemma format_date_fields_dict_of:
  "distinct ks \<Longrightarrow> set fs \<subseteq> set ks \<Longrightarrow>
   format_date_fields rt fs (dict_of ks g) =
     Inr (dict_of ks (foldl (norm_step rt) g fs))"
proof (induction fs arbitrary: g)
  case Nil
  then show ?case by simp
next
  case (Cons f fs)
  from Cons.prems have f: "f \<in> set ks" and fs: "set fs \<subseteq> set ks" by simp_all
  have get: "getitem (dict_of ks g) f = Inr (g f)"
    by (simp add: getitem_def map_of_dict_of[OF f])
  show ?case
  proof (cases "g f \<notin> set [''N/A'', '''', ''Invalid Date'']")
    case True
    then have n: "normalized rt (g f) = date_str rt (g f)" by (simp add: normalized_def)
    have "format_date_fields rt (f # fs) (dict_of ks g) =
            format_date_fields rt fs (dict_of ks (g(f := date_str rt (g f))))"
      using True by (simp add: get format_date_eq setitem_dict_of[OF Cons.prems(1) f])
    also have "\<dots> = Inr (dict_of ks (foldl (norm_step rt) (g(f := date_str rt (g f))) fs))"
      by (rule Cons.IH[OF Cons.prems(1) fs])
    finally have "format_date_fields rt (f # fs) (dict_of ks g) =
        Inr (dict_of ks (foldl (norm_step rt) (g(f := date_str rt (g f))) fs))" .
    moreover have "norm_step rt g f = g(f := date_str rt (g f))"
      by (simp add: norm_step_def n)
    ultimately show ?thesis by (simp only: foldl_Cons)
  next
    case False
    then have n: "normalized rt (g f) = g f" by (simp add: normalized_def)
    have "format_date_fields rt (f # fs) (dict_of ks g) = format_date_fields rt fs (dict_of ks g)"
      using False by (simp add: get)
    also have "\<dots> = Inr (dict_of ks (foldl (norm_step rt) g fs))"
      by (rule Cons.IH[OF Cons.prems(1) fs])
    finally have "format_date_fields rt (f # fs) (dict_of ks g) =
        Inr (dict_of ks (foldl (norm_step rt) g fs))" .
    moreover have "norm_step rt g f = g"
      by (simp add: norm_step_def n)
    ultimately show ?thesis by (simp only: foldl_Cons)
  qed
qed

lemma siblings_rule_eq:
  "siblings_rule rt text data = Inr (assign ''Siblings'' (siblings_value rt text) data)"
  by (simp add: siblings_rule_def siblings_value_def sibling_names_def assign_def Let_def)

lemma locations_rule_eq:
  "locations_rule rt text data = Inr (assign ''Geographical Locations'' (locations_value rt text) data)"
  by (simp add: locations_rule_def locations_value_def locations_found_def assign_def Let_def)

lemma field_names_in_schema:
  "''Date of Interview'' \<in> set required_fields" "''Name'' \<in> set required_fields"
  "''Date of Birth'' \<in> set required_fields" "''Place of Birth'' \<in> set required_fields"
  "''Siblings'' \<in> set required_fields" "''Church Affiliation'' \<in> set required_fields"
  "''Employer'' \<in> set required_fields" "''Schools Attended'' \<in> set required_fields"
  "''Geographical Locations'' \<in> set required_fields" "''Sources'' \<in> set required_fields"
  "set date_fields \<subseteq> set required_fields"
  by (simp_all add: required_fields_def date_fields_def)

lemma extract_fields_unlabeled_eq:
  "extract_fields_unlabeled rt text filename =
     Inr (dict_of required_fields (record_map rt text filename))"
  unfolding extract_fields_unlabeled_def record_map_def rules_map_def
  by (simp only: search_rule_eq[OF sets_group_patterns(1)] search_rule_eq[OF sets_group_patterns(2)]
        search_rule_eq[OF sets_group_patterns(3)] search_rule_eq[OF sets_group_patterns(4)]
        search_rule_eq[OF sets_group_patterns(5)] search_rule_eq[OF sets_group_patterns(6)]
        search_rule_eq[OF sets_group_patterns(7)] siblings_rule_eq locations_rule_eq
        and_then_def sum.case init_data_eq
        assign_dict_of[OF distinct_required_fields] field_names_in_schema
        setitem_dict_of[OF distinct_required_fields]
        format_date_fields_dict_of[OF distinct_required_fields])

lemma map_fst_dict_of: "map fst (dict_of ks g) = ks"
  by (simp add: dict_of_def comp_def)

lemma foldl_norm_step:
  "distinct fs \<Longrightarrow>
   foldl (norm_step rt) g fs k = (if k \<in> set fs then normalized rt (g k) else g k)"
  by (induction fs arbitrary: g) (auto simp: norm_step_def)

lemma distinct_date_fields: "distinct date_fields"
  by (simp add: date_fields_def)

lemma record_map_apply:
  "record_map rt text filename k =
     (if k = ''Sources'' then filename
      else if k \<in> set date_fields then normalized rt (rules_map rt text k)
      else rules_map rt text k)"
  unfolding record_map_def foldl_norm_step[OF distinct_date_fields]
  by (simp add: date_fields_def)

lemma upd_opt_other: "k' \<noteq> k \<Longrightarrow> upd_opt g k v k' = g k'"
  by (cases v) (simp_all add: upd_opt_def)


lemma rules_map_unruled:
  "k \<notin> set ruled_fields \<Longrightarrow> rules_map rt text k = ''N/A''"
  by (simp add: rules_map_def ruled_fields_def upd_opt_other)

lemma normalized_NA: "normalized rt ''N/A'' = ''N/A''"
  by (simp add: normalized_def)

lemma unruled_not_ruled: "k \<in> set unruled_fields \<Longrightarrow> k \<notin> set ruled_fields"
  by (auto simp: unruled_fields_def ruled_fields_def)

lemma unruled_in_schema: "set unruled_fields \<subseteq> set required_fields"
  by (simp add: unruled_fields_def required_fields_def)

lemma record_map_unruled:
  assumes "k \<in> set unruled_fields"
  shows "record_map rt text filename k = ''N/A''"
proof -
  from assms have nr: "k \<notin> set ruled_fields" by (rule unruled_not_ruled)
  then have "k \<noteq> ''Sources''" by (auto simp: ruled_fields_def)
  with nr show ?thesis
    by (simp add: record_map_apply rules_map_unruled normalized_NA)
qed

lemma rules_map_no_pattern:
  assumes "no_recognizable_pattern text"
  shows "rules_map rt text = (\<lambda>k. ''N/A'')"
proof -
  from assms have rv: "rule_value flags_IS date_int_re text = None"
    "rule_value flags_I name_re text = None" "rule_value flags_I dob_re text = None"
    "rule_value flags_I pob_re text = None" "rule_value flags_I church_re text = None"
    "rule_value flags_I employer_re text = None" "rule_value flags_I education_re text = None"
    by (simp_all add: no_recognizable_pattern_def rule_value_def)
  from assms have "sibling_names text = []"
    by (simp add: no_recognizable_pattern_def sibling_names_def)
  then have sv: "siblings_value rt text = None" by (simp add: siblings_value_def)
  from assms have "locations_found text = []"
    by (simp add: no_recognizable_pattern_def locations_found_def filter_empty_conv list_all_iff)
  then have lv: "locations_value rt text = None" by (simp add: locations_value_def)
  show ?thesis by (simp add: rules_map_def rv sv lv upd_opt_def)
qed

lemma no_recognizable_pattern_empty: "no_recognizable_pattern []"
  by code_simp

section \<open>Literal patterns and the fields of the steps\<close>



lemma occurs_ci_take: "ci_eq (take (length w) text) w \<Longrightarrow> occurs_ci w text"
  by (cases "text") simp_all

lemma occurs_ci_iff:
  "occurs_ci w text = (\<exists>pre u post. text = pre @ u @ post \<and> ci_eq u w)"
proof
  assume "occurs_ci w text"
  then show "\<exists>pre u post. text = pre @ u @ post \<and> ci_eq u w"
  proof (induction "text")
    case Nil
    then have "[] = [] @ [] @ [] \<and> ci_eq [] w" by simp
    then show ?case by (intro exI)
  next
    case (Cons x t)
    from Cons.prems have "ci_eq (take (length w) (x # t)) w \<or> occurs_ci w t" by simp
    then show ?case
    proof
      assume "ci_eq (take (length w) (x # t)) w"
      then have "x # t = [] @ take (length w) (x # t) @ drop (length w) (x # t) \<and>
                 ci_eq (take (length w) (x # t)) w" by simp
      then show ?thesis by (intro exI)
    next
      assume "occurs_ci w t"
      from Cons.IH[OF this] obtain pre u post where "t = pre @ u @ post" "ci_eq u w"
        by (elim exE conjE)
      then have "x # t = (x # pre) @ u @ post \<and> ci_eq u w" by simp
      then show ?thesis by (intro exI)
    qed
  qed
next
  assume "\<exists>pre u post. text = pre @ u @ post \<and> ci_eq u w"
  then obtain pre u post where t: "text = pre @ u @ post" and u: "ci_eq u w"
    by (elim exE conjE)
  from u have "length (map py_lower u) = length (map py_lower w)"
    unfolding ci_eq_def by (rule arg_cong)
  then have "length u = length w" by simp
  with u have "ci_eq (take (length w) (u @ post)) w" by simp
  then have "occurs_ci w (u @ post)" by (rule occurs_ci_take)
  then have "occurs_ci w (pre @ u @ post)" by (induction pre) simp_all
  with t show "occurs_ci w text" by simp
qed












section \<open>The claims about \<open>extract_fields_unlabeled\<close>\<close>

text \<open>
  C1. For every text and every file name, \<open>extract_fields_unlabeled\<close> returns a record
  whose keys are exactly the 36 field names of the schema, in the order of the schema:
  none is added, none is missing, none occurs twice.
\<close>

theorem extract_schema_complete:
  "\<exists>d. extract_fields_unlabeled rt text filename = Inr d \<and>
        map fst d = required_fields \<and> distinct (map fst d) \<and> length d = 36"
  by (simp add: extract_fields_unlabeled_eq map_fst_dict_of distinct_required_fields)
     (simp add: dict_of_def required_fields_def)

theorem extract_schema_complete_witness:
  "\<exists>d. extract_fields_unlabeled sample_rt example_text ''interview.txt'' = Inr d \<and>
        map fst d = required_fields \<and> distinct (map fst d) \<and> length d = 36"
  using extract_schema_complete[of sample_rt example_text "''interview.txt''"] by simp

text \<open>
  C2. For a text in which no step of the function finds anything, the empty text among
  them, the function raises nothing and returns the record in which every field is
  \<open>"N/A"\<close>, except \<open>"Sources"\<close>, which is the file name as given.
\<close>

theorem no_pattern_all_sentinel:
  "no_recognizable_pattern [] \<and>
   (no_recognizable_pattern text \<longrightarrow>
      extract_fields_unlabeled rt text filename =
        Inr (map (\<lambda>k. (k, if k = ''Sources'' then filename else ''N/A'')) required_fields))"
proof (intro conjI impI)
  show "no_recognizable_pattern []" by (rule no_recognizable_pattern_empty)
next
  assume np: "no_recognizable_pattern text"
  have "record_map rt text filename = (\<lambda>k. if k = ''Sources'' then filename else ''N/A'')"
    by (rule ext) (simp add: record_map_apply rules_map_no_pattern[OF np] normalized_NA)
  then show "extract_fields_unlabeled rt text filename =
        Inr (map (\<lambda>k. (k, if k = ''Sources'' then filename else ''N/A'')) required_fields)"
    by (simp add: extract_fields_unlabeled_eq dict_of_def)
qed

theorem no_pattern_all_sentinel_witness:
  "no_recognizable_pattern ''Plain words only.'' \<and>
   extract_fields_unlabeled sample_rt ''Plain words only.'' ''notes.txt'' =
     Inr (map (\<lambda>k. (k, if k = ''Sources'' then ''notes.txt'' else ''N/A'')) required_fields) \<and>
   extract_fields_unlabeled sample_rt [] ''notes.txt'' =
     Inr (map (\<lambda>k. (k, if k = ''Sources'' then ''notes.txt'' else ''N/A'')) required_fields)"
proof -
  have h: "no_recognizable_pattern ''Plain words only.''" by code_simp
  from h no_pattern_all_sentinel[of "''Plain words only.''" sample_rt "''notes.txt''"]
    no_pattern_all_sentinel[of "[]" sample_rt "''notes.txt''"]
  show ?thesis by simp
qed

text \<open>
  C9. The 26 fields of the schema for which the function has no step (all but Name, Date
  of Birth, Place of Birth, Date of Interview, Siblings, Church Affiliation, Employer,
  Schools Attended, Geographical Locations and Sources) are \<open>"N/A"\<close> in every record
  the function returns.
\<close>

theorem unruled_fields_stay_NA:
  "(\<exists>d. extract_fields_unlabeled rt text filename = Inr d \<and>
        (\<forall>k \<in> set unruled_fields. map_of d k = Some ''N/A'')) \<and>
   unruled_fields = filter (\<lambda>k. k \<notin> set ruled_fields) required_fields \<and>
   length unruled_fields = 26 \<and> length ruled_fields = 10"
proof -
  have "\<forall>k \<in> set unruled_fields.
          map_of (dict_of required_fields (record_map rt text filename)) k = Some ''N/A''"
    using unruled_in_schema by (auto simp: map_of_dict_of record_map_unruled)
  moreover have "unruled_fields = filter (\<lambda>k. k \<notin> set ruled_fields) required_fields"
    by (simp add: unruled_fields_def required_fields_def ruled_fields_def)
  moreover have "length unruled_fields = 26 \<and> length ruled_fields = 10"
    by (simp add: unruled_fields_def ruled_fields_def)
  ultimately show ?thesis by (simp add: extract_fields_unlabeled_eq)
qed

theorem unruled_fields_stay_NA_witness:
  "\<exists>d. extract_fields_unlabeled sample_rt example_text ''interview.txt'' = Inr d \<and>
        map_of d ''Occupation'' = Some ''N/A'' \<and> map_of d ''Notes'' = Some ''N/A'' \<and>
        map_of d ''Year of Graduation'' = Some ''N/A''"
proof -
  from unruled_fields_stay_NA[of sample_rt example_text "''interview.txt''"]
  obtain d where d: "extract_fields_unlabeled sample_rt example_text ''interview.txt'' = Inr d"
    and na: "\<forall>k \<in> set unruled_fields. map_of d k = Some ''N/A''" by blast
  have "''Occupation'' \<in> set unruled_fields" "''Notes'' \<in> set unruled_fields"
    "''Year of Graduation'' \<in> set unruled_fields"
    by (simp_all add: unruled_fields_def)
  with d na show ?thesis by blast
qed







end
